theory Spec2Isabelle
  imports Complex_Main "HOL-Library.Word"
begin

unbundle bit_operations_syntax

section \<open>Python values\<close>

text \<open>
  A \<open>bytes\<close> object is a list of 8-bit words. Python integers are unbounded, so every
  integer the code computes is an \<open>int\<close>; the shifts, masks and xors are the bit
  operations of \<open>int\<close>. A value of type \<open>Any\<close> (what \<open>json.loads\<close> returns, what the
  stores and the response dictionaries hold) is a \<open>pyval\<close>. A float is represented by
  the real number it denotes: the code passes floats on and never computes with them.
  A \<open>dict\<close> lists its items in insertion order.
\<close>

type_synonym byte = "8 word"

datatype pyval =
    PNone
  | PBool bool
  | PInt int
  | PFloat real
  | PStr string
  | PList "pyval list"
  | PDict "(string \<times> pyval) list"

datatype py_error = StructError | AttributeError | XMLParseError

section \<open>struct.pack and struct.unpack\<close>

text \<open>
  \<open>struct.pack\<close> raises \<open>struct.error\<close> when a value does not fit its format
  (\<open>B\<close>: 0..255, \<open>H\<close>: 0..65535, \<open>I\<close>: 0..4294967295); \<open>struct.unpack\<close> raises it
  when the buffer does not have exactly the size of the format. All formats of the
  program are big-endian.
\<close>

definition pack_B :: "int \<Rightarrow> py_error + byte list" where
  "pack_B v = (if 0 \<le> v \<and> v \<le> 255 then Inr [word_of_int v] else Inl StructError)"

definition pack_H :: "int \<Rightarrow> py_error + byte list" where
  "pack_H v =
     (if 0 \<le> v \<and> v \<le> 65535
      then Inr [word_of_int (v div 256), word_of_int (v mod 256)]
      else Inl StructError)"

definition pack_I :: "int \<Rightarrow> py_error + byte list" where
  "pack_I v =
     (if 0 \<le> v \<and> v \<le> 4294967295
      then Inr [word_of_int (v div 16777216), word_of_int (v div 65536 mod 256),
                word_of_int (v div 256 mod 256), word_of_int (v mod 256)]
      else Inl StructError)"

definition unpack_H :: "byte \<Rightarrow> byte \<Rightarrow> int" where
  "unpack_H hi lo = uint hi * 256 + uint lo"

definition unpack_HHH :: "byte list \<Rightarrow> py_error + (int \<times> int \<times> int)" where
  "unpack_HHH bs =
     (case bs of
        [a, b, c, d, e, f] \<Rightarrow> Inr (unpack_H a b, unpack_H c d, unpack_H e f)
      | _ \<Rightarrow> Inl StructError)"

text \<open>
  The bytes \<open>struct.pack('>H', v)\<close> and \<open>struct.pack('>I', v)\<close> write for a value in
  range.
\<close>

definition be16 :: "int \<Rightarrow> byte list" where
  "be16 v = [word_of_int (v div 256), word_of_int (v mod 256)]"

definition be32 :: "int \<Rightarrow> byte list" where
  "be32 v = [word_of_int (v div 16777216), word_of_int (v div 65536 mod 256),
             word_of_int (v div 256 mod 256), word_of_int (v mod 256)]"

text \<open>Sequencing of calls that may raise: the first exception ends the computation.\<close>

definition and_then :: "'e + 'a \<Rightarrow> ('a \<Rightarrow> 'e + 'b) \<Rightarrow> 'e + 'b" where
  "and_then r f = (case r of Inl e \<Rightarrow> Inl e | Inr x \<Rightarrow> f x)"

section \<open>simulator.py: CRC and packet encoding\<close>

text \<open>
  \<open>_calculate_crc\<close>: the inner loop \<open>for _ in range(8)\<close> is \<open>crc_bits 8\<close>, the outer
  loop over the bytes is \<open>crc_bytes\<close>.
\<close>

fun crc_bits :: "nat \<Rightarrow> int \<Rightarrow> int" where
  "crc_bits 0 crc = crc"
| "crc_bits (Suc n) crc =
     crc_bits n
       ((if crc AND 0x8000 \<noteq> 0 then push_bit 1 crc XOR 0x1021 else push_bit 1 crc)
          AND 0xFFFF)"

fun crc_bytes :: "int \<Rightarrow> byte list \<Rightarrow> int" where
  "crc_bytes crc [] = crc"
| "crc_bytes crc (b # bs) = crc_bytes (crc_bits 8 (crc XOR push_bit 8 (uint b))) bs"

definition calculate_crc :: "byte list \<Rightarrow> int" where
  "calculate_crc data = crc_bytes 0xFFFF data"

text \<open>
  The CRC as the specification words it, on a 16-bit register: start from 0xFFFF; for
  each byte, xor it into the high byte of the register, then eight times shift left,
  xoring with 0x1021 when the top bit was set.
\<close>

definition crc16_shift :: "16 word \<Rightarrow> 16 word" where
  "crc16_shift r = (if bit r 15 then push_bit 1 r XOR 0x1021 else push_bit 1 r)"

definition crc16_byte :: "16 word \<Rightarrow> byte \<Rightarrow> 16 word" where
  "crc16_byte r b = (crc16_shift ^^ 8) (r XOR push_bit 8 (ucast b))"

definition crc16_ccitt :: "byte list \<Rightarrow> 16 word" where
  "crc16_ccitt bs = foldl crc16_byte 0xFFFF bs"

text \<open>
  The simulator object: \<open>host\<close> and \<open>port\<close> are only used by the sending loop and are
  left out. \<open>create_ccsds_packet\<close> takes the telemetry dictionary; \<open>json_dumps\<close> stands
  for \<open>json.dumps(data).encode('utf-8')\<close> and \<open>now_s\<close> for the clock reading
  \<open>int(datetime.now(timezone.utc).timestamp())\<close>. The result is the packet and the
  simulator with its counter advanced, or the exception of \<open>struct.pack\<close>, raised
  before the counter is touched.
\<close>

record simulator =
  sim_apid :: int
  packet_counter :: int

definition create_ccsds_packet ::
  "(pyval \<Rightarrow> byte list) \<Rightarrow> int \<Rightarrow> simulator \<Rightarrow> pyval \<Rightarrow> py_error + (byte list \<times> simulator)"
where
  "create_ccsds_packet json_dumps now_s self data =
     (let packet_version = 0 :: int;
          packet_type = 0 :: int;
          sec_header_flag = 1 :: int;
          word1 = push_bit 13 packet_version OR push_bit 12 packet_type
                    OR push_bit 11 sec_header_flag OR sim_apid self;
          sequence_flags = 3 :: int;
          sequence_count = packet_counter self mod 16384;
          word2 = push_bit 14 sequence_flags OR sequence_count;
          json_data = json_dumps data;
          sec_header_length = 11 :: int;
          crc_length = 2 :: int;
          total_data_length = sec_header_length + int (length json_data) + crc_length;
          word3 = total_data_length - 7
      in and_then (pack_H word1) (\<lambda>h1.
         and_then (pack_H word2) (\<lambda>h2.
         and_then (pack_H word3) (\<lambda>h3.
         let header = h1 @ h2 @ h3;
             timestamp_seconds = now_s mod 86400
         in and_then (pack_I timestamp_seconds) (\<lambda>s1.
            and_then (pack_B 1) (\<lambda>p1.
            and_then (pack_B 3) (\<lambda>p2.
            and_then (pack_B 1) (\<lambda>p3.
            and_then (pack_H 1000) (\<lambda>s3.
            and_then (pack_H 2000) (\<lambda>s4.
            let sec_header = s1 @ (p1 @ p2 @ p3) @ s3 @ s4;
                packet = header @ sec_header @ json_data;
                crc = calculate_crc packet
            in and_then (pack_H crc) (\<lambda>c.
               Inr (packet @ c,
                    self\<lparr>packet_counter := packet_counter self + 1\<rparr>))))))))))))"

text \<open>
  The bytes of a packet before its CRC, as \<open>create_ccsds_packet\<close> lays them out: the
  three header words, the 11 bytes of the secondary header, the payload.
\<close>

definition encode_body :: "(pyval \<Rightarrow> byte list) \<Rightarrow> int \<Rightarrow> simulator \<Rightarrow> pyval \<Rightarrow> byte list" where
  "encode_body json_dumps now_s self data =
     be16 (push_bit 11 1 OR sim_apid self)
     @ be16 (49152 + packet_counter self mod 16384)
     @ be16 (int (length (json_dumps data)) + 6)
     @ be32 (now_s mod 86400)
     @ [1, 3, 1] @ be16 1000 @ be16 2000 @ json_dumps data"

section \<open>mo_service.py: packet decoding\<close>

text \<open>\<open>bytes.hex()\<close>: two lower-case hexadecimal digits for each byte.\<close>

definition hex_digit :: "nat \<Rightarrow> char" where
  "hex_digit n = (''0123456789abcdef'') ! n"

definition hex :: "byte list \<Rightarrow> string" where
  "hex bs = concat (map (\<lambda>b. [hex_digit (unat b div 16), hex_digit (unat b mod 16)]) bs)"

text \<open>
  The dictionary \<open>parse_packet\<close> returns has either the single key \<open>error\<close> or the keys
  \<open>header\<close>, \<open>telemetry\<close>, \<open>raw_size\<close> and \<open>timestamp\<close>; the two shapes are the two
  sides of a sum. \<open>PacketTooShort\<close> is the message \<open>Packet too short\<close>, \<open>ParseError e\<close>
  the message built by the handler \<open>except Exception as e\<close> around the body.
\<close>

datatype decode_error = PacketTooShort | ParseError py_error

record packet_header =
  version :: int
  ptype :: string
  apid :: int
  sequence_flags :: int
  sequence_count :: int
  data_length :: int

record parsed_packet =
  header :: packet_header
  telemetry :: pyval
  raw_size :: nat
  pkt_timestamp :: string

text \<open>
  \<open>json_loads bs\<close> stands for \<open>json.loads(bs.decode('utf-8', errors='ignore'))\<close>, with
  \<open>None\<close> when it raises (the bare \<open>except\<close> catches everything); \<open>now\<close> is
  \<open>datetime.now(timezone.utc).isoformat()\<close>. The slice \<open>data[17:-2]\<close> is taken only
  where \<open>17 < len(data) - 2\<close>.
\<close>

definition parse_packet ::
  "(byte list \<Rightarrow> pyval option) \<Rightarrow> string \<Rightarrow> byte list \<Rightarrow> decode_error + parsed_packet"
where
  "parse_packet json_loads now data =
     (if length data < 6 then Inl PacketTooShort
      else
        (case unpack_HHH (take 6 data) of
           Inl e \<Rightarrow> Inl (ParseError e)
         | Inr (word1, word2, word3) \<Rightarrow>
             (let packet_version = drop_bit 13 word1 AND 0x07;
                  packet_type = drop_bit 12 word1 AND 0x01;
                  sec_header_flag = drop_bit 11 word1 AND 0x01;
                  apid = word1 AND 0x07FF;
                  sequence_flags = drop_bit 14 word2 AND 0x03;
                  sequence_count = word2 AND 0x3FFF;
                  data_length = word3;
                  telemetry =
                    (if sec_header_flag \<noteq> 0 \<and> length data \<ge> 17 then
                       (let json_start = 17 :: nat in
                        if int json_start < int (length data) - 2 then
                          (let json_data = drop json_start (take (length data - 2) data) in
                           case json_loads json_data of
                             Some t \<Rightarrow> t
                           | None \<Rightarrow> PDict [(''raw'', PStr (hex json_data))])
                        else PDict [(''raw'', PStr (hex (drop 6 data)))])
                     else PDict [(''raw'', PStr (hex (drop 6 data)))])
              in Inr \<lparr>header = \<lparr>version = packet_version,
                                ptype = (if packet_type = 0 then ''TM'' else ''TC''),
                                apid = apid,
                                sequence_flags = sequence_flags,
                                sequence_count = sequence_count,
                                data_length = data_length\<rparr>,
                      telemetry = telemetry,
                      raw_size = length data,
                      pkt_timestamp = now\<rparr>)))"

text \<open>
  What \<open>parse_packet\<close> reads from a buffer of at least 6 bytes, named for the statements
  below: the secondary-header flag (bit 11 of the first word), the header fields, the
  payload slice \<open>data[17:-2]\<close> and the fallback dictionary \<open>{"raw": ...}\<close>.
\<close>

definition secondary_header_flag :: "byte list \<Rightarrow> int" where
  "secondary_header_flag data = drop_bit 11 (unpack_H (data ! 0) (data ! 1)) AND 0x01"

definition header_of :: "byte list \<Rightarrow> packet_header" where
  "header_of data =
     (let word1 = unpack_H (data ! 0) (data ! 1);
          word2 = unpack_H (data ! 2) (data ! 3);
          word3 = unpack_H (data ! 4) (data ! 5)
      in \<lparr>version = drop_bit 13 word1 AND 0x07,
          ptype = (if drop_bit 12 word1 AND 0x01 = 0 then ''TM'' else ''TC''),
          apid = word1 AND 0x07FF,
          sequence_flags = drop_bit 14 word2 AND 0x03,
          sequence_count = word2 AND 0x3FFF,
          data_length = word3\<rparr>)"

definition payload_of :: "byte list \<Rightarrow> byte list" where
  "payload_of data = drop 17 (take (length data - 2) data)"

definition raw_telemetry :: "byte list \<Rightarrow> pyval" where
  "raw_telemetry bs = PDict [(''raw'', PStr (hex bs))]"


text \<open>
  A packet of the simulator (APID 100, counter 16385, payload \<open>{}\<close>), used to exercise
  the decoder.
\<close>

definition sample_packet :: "byte list" where
  "sample_packet =
     [8, 100, 192, 1, 0, 8, 0, 1, 56, 128, 1, 3, 1, 3, 232, 7, 208, 123, 125, 143, 165]"

section \<open>Strings\<close>

text \<open>
  Strings are lists of 8-bit characters. \<open>upper\<close> and \<open>lower\<close> map the ASCII letters and
  leave every other character as it is (Python also maps letters outside ASCII); no
  statement below depends on what they do to a character. \<open>contains sub s\<close> is
  \<open>sub in s\<close>, and \<open>str_int\<close> is \<open>str\<close> on an integer.
\<close>

definition char_upper :: "char \<Rightarrow> char" where
  "char_upper c =
     (let n = of_char c :: nat in if 97 \<le> n \<and> n \<le> 122 then char_of (n - 32) else c)"

definition char_lower :: "char \<Rightarrow> char" where
  "char_lower c =
     (let n = of_char c :: nat in if 65 \<le> n \<and> n \<le> 90 then char_of (n + 32) else c)"

definition upper :: "string \<Rightarrow> string" where
  "upper s = map char_upper s"

definition lower :: "string \<Rightarrow> string" where
  "lower s = map char_lower s"

fun contains :: "string \<Rightarrow> string \<Rightarrow> bool" where
  "contains sub [] = (sub = [])"
| "contains sub (c # cs) = (take (length sub) (c # cs) = sub \<or> contains sub cs)"

fun str_nat :: "nat \<Rightarrow> string" where
  "str_nat n =
     (if n < 10 then [char_of (48 + n)]
      else str_nat (n div 10) @ [char_of (48 + n mod 10)])"

definition str_int :: "int \<Rightarrow> string" where
  "str_int i = (if i < 0 then CHR ''-'' # str_nat (nat (- i)) else str_nat (nat i))"

section \<open>mo_service.py: the stores, the receiver and GetParameterValues\<close>

text \<open>
  An entry of \<open>parameter_store\<close> is a dictionary with the keys \<open>value\<close>, \<open>timestamp\<close>
  and \<open>validity\<close>, which every writer sets and the readers index directly, and the
  keys \<open>units\<close>, \<open>quality\<close> and \<open>source\<close>, which the readers fetch with \<open>.get\<close> or not
  at all: these are optional fields. The two module-level dictionaries are finite maps.
\<close>

record param_data =
  pd_value :: pyval
  pd_timestamp :: string
  pd_validity :: string
  pd_units :: "string option"
  pd_quality :: "string option"
  pd_source :: "string option"

type_synonym param_store = "string \<rightharpoonup> param_data"

record mo_state =
  telemetry_store :: "int \<rightharpoonup> parsed_packet"
  parameter_store :: param_store

definition get_units :: "string \<Rightarrow> string" where
  "get_units param_name =
     (let param_lower = lower param_name in
      if contains ''temp'' param_lower \<or> contains ''temperature'' param_lower
        then [char_of (0xC2 :: nat), char_of (0xB0 :: nat), CHR ''C'']
      else if contains ''voltage'' param_lower then ''V''
      else if contains ''current'' param_lower then ''A''
      else if contains ''gyro'' param_lower then ''rad/s''
      else if contains ''charge'' param_lower then ''%''
      else [])"

text \<open>
  \<open>_extract_parameters\<close> writes one entry for each item of \<open>measurements\<close> and of
  \<open>health\<close> and one for \<open>subsystem\<close>. \<open>.items()\<close> on a value that is not a dictionary
  raises \<open>AttributeError\<close>; the writes made before it stay. The result is the store
  reached and the exception, if any.
\<close>

definition store_items ::
  "string \<Rightarrow> (string \<Rightarrow> string) \<Rightarrow> string \<Rightarrow> int \<Rightarrow> (string \<times> pyval) list
     \<Rightarrow> param_store \<Rightarrow> param_store"
where
  "store_items prefix units_of timestamp packet_id items store =
     fold (\<lambda>(key, value) st.
             st(prefix @ upper key \<mapsto>
                  \<lparr>pd_value = value, pd_timestamp = timestamp, pd_validity = ''VALID'',
                   pd_units = Some (units_of key), pd_quality = None,
                   pd_source = Some (''Packet_'' @ str_int packet_id)\<rparr>))
          items store"

definition extract_parameters ::
  "parsed_packet \<Rightarrow> int \<Rightarrow> param_store \<Rightarrow> py_error option \<times> param_store"
where
  "extract_parameters parsed packet_id store =
     (case telemetry parsed of
        PDict tm \<Rightarrow>
          (let measured =
                 (case map_of tm ''measurements'' of
                    None \<Rightarrow> Inr store
                  | Some (PDict items) \<Rightarrow>
                      Inr (store_items ''MEAS_'' get_units (pkt_timestamp parsed) packet_id
                             items store)
                  | Some _ \<Rightarrow> Inl store)
           in case measured of
                Inl st \<Rightarrow> (Some AttributeError, st)
              | Inr st1 \<Rightarrow>
                  (let health =
                         (case map_of tm ''health'' of
                            None \<Rightarrow> Inr st1
                          | Some (PDict items) \<Rightarrow>
                              Inr (store_items ''HEALTH_'' (\<lambda>_. []) (pkt_timestamp parsed)
                                     packet_id items st1)
                          | Some _ \<Rightarrow> Inl st1)
                   in case health of
                        Inl st \<Rightarrow> (Some AttributeError, st)
                      | Inr st2 \<Rightarrow>
                          (case map_of tm ''subsystem'' of
                             None \<Rightarrow> (None, st2)
                           | Some v \<Rightarrow>
                               (None,
                                st2(''SUBSYSTEM'' \<mapsto>
                                      \<lparr>pd_value = v, pd_timestamp = pkt_timestamp parsed,
                                       pd_validity = ''VALID'', pd_units = Some [],
                                       pd_quality = None,
                                       pd_source =
                                         Some (''Packet_'' @ str_int packet_id)\<rparr>)))))
      | _ \<Rightarrow> (None, store))"

text \<open>
  One turn of the loop of \<open>CCSDSReceiver.run\<close> for a datagram \<open>data\<close>: the packet is
  stored under its sequence count, then the parameters are extracted. An error result
  of the parser changes nothing, and an exception of the extraction is caught by the
  loop after the packet has been stored. \<open>run_receiver\<close> is the loop over the datagrams
  that arrive, each with the clock reading \<open>parse_packet\<close> takes.
\<close>

definition receive_datagram ::
  "(byte list \<Rightarrow> pyval option) \<Rightarrow> string \<Rightarrow> byte list \<Rightarrow> mo_state \<Rightarrow> mo_state"
where
  "receive_datagram json_loads now data st =
     (case parse_packet json_loads now data of
        Inl e \<Rightarrow> st
      | Inr parsed \<Rightarrow>
          (let packet_id = sequence_count (header parsed);
               st1 = st\<lparr>telemetry_store := (telemetry_store st)(packet_id \<mapsto> parsed)\<rparr>
           in case telemetry parsed of
                PDict tm \<Rightarrow>
                  st1\<lparr>parameter_store :=
                        snd (extract_parameters parsed packet_id (parameter_store st1))\<rparr>
              | _ \<Rightarrow> st1))"

fun run_receiver ::
  "(byte list \<Rightarrow> pyval option) \<Rightarrow> (string \<times> byte list) list \<Rightarrow> mo_state \<Rightarrow> mo_state"
where
  "run_receiver json_loads [] st = st"
| "run_receiver json_loads ((now, data) # rest) st =
     run_receiver json_loads rest (receive_datagram json_loads now data st)"

definition initial_state :: mo_state where
  "initial_state = \<lparr>telemetry_store = Map.empty, parameter_store = Map.empty\<rparr>"

text \<open>
  \<open>get_ccsds_parameters\<close>. The clock is read once for each identifier that is not in
  the store and once more for the response; \<open>clock k\<close> is the \<open>k\<close>-th reading during the
  call, and the loop counts the readings it has taken.
\<close>

record parameter =
  p_name :: string
  p_value :: pyval
  p_timestamp :: string
  p_validity :: string
  p_units :: "string option"
  p_quality :: "string option"

record get_parameter_values_response =
  parameters :: "parameter list"
  requestId :: string
  response_timestamp :: string

fun get_parameters_loop ::
  "(nat \<Rightarrow> string) \<Rightarrow> param_store \<Rightarrow> nat \<Rightarrow> string list \<Rightarrow> parameter list \<times> nat"
where
  "get_parameters_loop clock store k [] = ([], k)"
| "get_parameters_loop clock store k (param_id # rest) =
     (let param_id_upper = upper param_id in
      case store param_id_upper of
        Some param_data \<Rightarrow>
          (let param = \<lparr>p_name = param_id_upper,
                        p_value = pd_value param_data,
                        p_timestamp = pd_timestamp param_data,
                        p_validity = pd_validity param_data,
                        p_units = pd_units param_data,
                        p_quality = (case pd_quality param_data of
                                       Some q \<Rightarrow> Some q
                                     | None \<Rightarrow> Some ''GOOD'')\<rparr>;
               (ps, k') = get_parameters_loop clock store k rest
           in (param # ps, k'))
      | None \<Rightarrow>
          (let param = \<lparr>p_name = param_id_upper,
                        p_value = PNone,
                        p_timestamp = clock k,
                        p_validity = ''INVALID'',
                        p_units = None,
                        p_quality = Some ''UNKNOWN''\<rparr>;
               (ps, k') = get_parameters_loop clock store (Suc k) rest
           in (param # ps, k')))"

definition get_ccsds_parameters ::
  "(nat \<Rightarrow> string) \<Rightarrow> string list \<Rightarrow> string \<Rightarrow> mo_state \<Rightarrow> get_parameter_values_response"
where
  "get_ccsds_parameters clock parameterIds request_id st =
     (let (ps, k) = get_parameters_loop clock (parameter_store st) 0 parameterIds
      in \<lparr>parameters = ps, requestId = request_id, response_timestamp = clock k\<rparr>)"

text \<open>A state of the service with two stored parameters, used to exercise the handlers.\<close>

definition sample_entry :: "pyval \<Rightarrow> param_data" where
  "sample_entry v = \<lparr>pd_value = v, pd_timestamp = ''2024-12-27T10:30:45'', pd_validity = ''VALID'',
      pd_units = Some ''V'', pd_quality = None, pd_source = Some ''Packet_1''\<rparr>"

definition sample_mo_state :: mo_state where
  "sample_mo_state = \<lparr>telemetry_store = Map.empty,
      parameter_store = [''A'' \<mapsto> sample_entry (PFloat 12.3), ''B'' \<mapsto> sample_entry (PInt 7)]\<rparr>"

section \<open>ElementTree\<close>

text \<open>
  An \<open>ET.Element\<close> has a tag, attributes (a dictionary of strings), a text that may be
  \<open>None\<close>, and child elements; the tail is never read by the program and is left out.
  \<open>dict_set k v d\<close> is the assignment \<open>d[k] = v\<close> on a dictionary listed in insertion
  order: an existing key keeps its place, a new key goes to the end.
\<close>

datatype element =
  Element (tag: string) (attrib: "(string \<times> string) list") (elem_text: "string option")
    (children: "element list")

fun dict_set :: "'k \<Rightarrow> 'v \<Rightarrow> ('k \<times> 'v) list \<Rightarrow> ('k \<times> 'v) list" where
  "dict_set k v [] = [(k, v)]"
| "dict_set k v ((k', v') # d) = (if k' = k then (k, v) # d else (k', v') # dict_set k v d)"

text \<open>
  \<open>find_first name e\<close> is \<open>e.find('.//{*}name')\<close> and \<open>find_all name e\<close> is
  \<open>e.findall('.//{*}name')\<close>: the descendants of \<open>e\<close> in document order whose tag is
  \<open>name\<close> or ends with \<open>}name\<close>.
\<close>

fun descendants :: "element \<Rightarrow> element list" where
  "descendants (Element t a x cs) = concat (map (\<lambda>c. c # descendants c) cs)"

definition matches_any_ns :: "string \<Rightarrow> string \<Rightarrow> bool" where
  "matches_any_ns name t =
     (t = name \<or> drop (length t - Suc (length name)) t = CHR ''}'' # name)"

definition find_all :: "string \<Rightarrow> element \<Rightarrow> element list" where
  "find_all name e = filter (\<lambda>d. matches_any_ns name (tag d)) (descendants e)"

definition find_first :: "string \<Rightarrow> element \<Rightarrow> element option" where
  "find_first name e = (case find_all name e of [] \<Rightarrow> None | d # _ \<Rightarrow> Some d)"

section \<open>xml_validator.py: the tree codec\<close>

text \<open>
  \<open>dict_to_element\<close>, the inner function of \<open>dict_to_xml\<close>. \<open>py_str\<close> stands for Python's
  \<open>str\<close>. \<open>child_elements\<close> is the loop over \<open>value.items()\<close> and \<open>item_elements\<close> the
  loop over a list. \<open>.items()\<close> on an \<open>@attributes\<close> value that is not a dictionary
  raises \<open>AttributeError\<close>.
\<close>

definition opt_str :: "string option \<Rightarrow> pyval" where
  "opt_str s = (case s of None \<Rightarrow> PNone | Some x \<Rightarrow> PStr x)"

fun dict_to_element :: "(pyval \<Rightarrow> string) \<Rightarrow> string \<Rightarrow> pyval \<Rightarrow> py_error + element"
  and child_elements :: "(pyval \<Rightarrow> string) \<Rightarrow> (string \<times> pyval) list \<Rightarrow> py_error + element list"
  and item_elements :: "(pyval \<Rightarrow> string) \<Rightarrow> string \<Rightarrow> pyval list \<Rightarrow> py_error + element list"
where
  "dict_to_element py_str tg (PDict d) =
     and_then
       (case map_of d ''@attributes'' of
          None \<Rightarrow> Inr []
        | Some (PDict attrs) \<Rightarrow>
            Inr (fold (\<lambda>(attr, attr_value) a. dict_set attr (py_str attr_value) a) attrs [])
        | Some _ \<Rightarrow> Inl AttributeError)
       (\<lambda>attributes.
          and_then (child_elements py_str d)
            (\<lambda>cs. Inr (Element tg attributes (map_option py_str (map_of d ''#text'')) cs)))"
| "dict_to_element py_str tg (PList xs) =
     and_then (item_elements py_str ''item'' xs) (\<lambda>cs. Inr (Element tg [] None cs))"
| "dict_to_element py_str tg PNone = Inr (Element tg [] (Some (py_str PNone)) [])"
| "dict_to_element py_str tg (PBool b) = Inr (Element tg [] (Some (py_str (PBool b))) [])"
| "dict_to_element py_str tg (PInt i) = Inr (Element tg [] (Some (py_str (PInt i))) [])"
| "dict_to_element py_str tg (PFloat f) = Inr (Element tg [] (Some (py_str (PFloat f))) [])"
| "dict_to_element py_str tg (PStr s) = Inr (Element tg [] (Some (py_str (PStr s))) [])"
| "child_elements py_str [] = Inr []"
| "child_elements py_str ((child_tag, child_value) # rest) =
     (if child_tag = ''@attributes'' \<or> child_tag = ''#text'' then child_elements py_str rest
      else
        and_then
          (case child_value of
             PList items \<Rightarrow> item_elements py_str child_tag items
           | _ \<Rightarrow> and_then (dict_to_element py_str child_tag child_value) (\<lambda>e. Inr [e]))
          (\<lambda>es. and_then (child_elements py_str rest) (\<lambda>es'. Inr (es @ es'))))"
| "item_elements py_str tg [] = Inr []"
| "item_elements py_str tg (x # xs) =
     and_then (dict_to_element py_str tg x)
       (\<lambda>e. and_then (item_elements py_str tg xs) (\<lambda>es. Inr (e # es)))"

text \<open>
  \<open>dict_to_xml\<close> sets the two namespace attributes on the root and hands the tree to
  \<open>ET.indent\<close> and \<open>ET.tostring\<close>. The text these write is represented by the tree they
  were given.
\<close>

definition dict_to_xml :: "(pyval \<Rightarrow> string) \<Rightarrow> pyval \<Rightarrow> string \<Rightarrow> py_error + element" where
  "dict_to_xml py_str data root_tag =
     and_then (dict_to_element py_str root_tag data)
       (\<lambda>rt.
          Inr (Element (tag rt)
                 (dict_set ''xmlns:common'' ''http://www.ccsds.org/schema/Common''
                    (dict_set ''xmlns''
                       ''http://www.ccsds.org/schema/Service/MonitorAndControl''
                       (attrib rt)))
                 (elem_text rt) (children rt)))"







text \<open>
  What the library does between the two functions: \<open>et_reparse doc\<close> is the tree that
  \<open>ET.fromstring(ET.tostring(doc))\<close> builds after \<open>ET.indent(doc)\<close>, for the trees this
  development covers: names are plain XML names (ASCII letters, digits, \<open>_\<close>, \<open>-\<close>, \<open>.\<close>,
  not starting with a digit, \<open>-\<close> or \<open>.\<close>), strings are printable ASCII, and only the
  root carries namespace declarations. For such a tree the parser consumes the
  declarations, qualifies every tag with the default namespace and keeps attributes and
  texts; \<open>ET.indent\<close> has put white space into the blank text of every element that has
  children. For any other tree the result is \<open>None\<close>: not modelled.
\<close>

definition name_start :: "char \<Rightarrow> bool" where
  "name_start c =
     (let n = of_char c :: nat in (65 \<le> n \<and> n \<le> 90) \<or> (97 \<le> n \<and> n \<le> 122) \<or> n = 95)"

definition name_char :: "char \<Rightarrow> bool" where
  "name_char c =
     (let n = of_char c :: nat in name_start c \<or> (48 \<le> n \<and> n \<le> 57) \<or> n = 45 \<or> n = 46)"

definition xml_name :: "string \<Rightarrow> bool" where
  "xml_name s = (case s of [] \<Rightarrow> False | c # cs \<Rightarrow> name_start c \<and> list_all name_char cs)"







section \<open>mo_service_xml.py: stores, receiver and operation handlers\<close>

text \<open>
  The module keeps \<open>telemetry_store\<close>, \<open>parameter_store\<close> and \<open>command_queue\<close>. The log
  \<open>xml_requests\<close> holds the first 1000 characters of request and response texts; no
  handler reads it and it is left out. \<open>telemetry_store\<close> is a dictionary in insertion
  order, so that \<open>len(telemetry_store)\<close> is its length. A queued command holds the
  request identifier, the extracted pairs (identifier text and \<open>parameterValue\<close> element)
  and a timestamp.
\<close>

record datagram_record =
  dr_source :: string
  dr_size :: nat
  dr_timestamp :: string

record command =
  cmd_request_id :: "string option"
  cmd_parameters :: "(string option \<times> element) list"
  cmd_timestamp :: string

record xml_state =
  x_telemetry_store :: "(nat \<times> datagram_record) list"
  x_parameter_store :: param_store
  x_command_queue :: "command list"

text \<open>
  One turn of the loop of the receiver of this module (\<open>Process packet (simplified)\<close>):
  the datagram is not decoded; a record of its sender, size and arrival time is stored
  under \<open>len(telemetry_store)\<close>.
\<close>

definition xml_receive_datagram :: "string \<Rightarrow> string \<Rightarrow> byte list \<Rightarrow> xml_state \<Rightarrow> xml_state" where
  "xml_receive_datagram now addr data st =
     (let packet_id = length (x_telemetry_store st)
      in st\<lparr>x_telemetry_store :=
              dict_set packet_id \<lparr>dr_source = addr, dr_size = length data, dr_timestamp = now\<rparr>
                (x_telemetry_store st)\<rparr>)"

fun xml_run_receiver :: "(string \<times> string \<times> byte list) list \<Rightarrow> xml_state \<Rightarrow> xml_state" where
  "xml_run_receiver [] st = st"
| "xml_run_receiver ((now, addr, data) # rest) st =
     xml_run_receiver rest (xml_receive_datagram now addr data st)"

text \<open>
  \<open>initialize_sample_parameters\<close>, run when the module is imported, and the state after
  the import. The clock is read once for each of the five parameters. \<open>fixed_clock t\<close> is
  a clock that always reads \<open>t\<close>, for the examples.
\<close>

definition fixed_clock :: "string \<Rightarrow> nat \<Rightarrow> string" where
  "fixed_clock t k = t"

definition sample_param :: "string \<Rightarrow> pyval \<Rightarrow> string \<Rightarrow> param_data" where
  "sample_param now v u =
     \<lparr>pd_value = v, pd_timestamp = now, pd_validity = ''VALID'', pd_units = Some u,
      pd_quality = None, pd_source = None\<rparr>"

definition initialize_sample_parameters :: "(nat \<Rightarrow> string) \<Rightarrow> param_store \<Rightarrow> param_store" where
  "initialize_sample_parameters clock store =
     store(upper ''TEMPERATURE_BUS'' \<mapsto> sample_param (clock 0) (PFloat 25.5) ''C'',
           upper ''VOLTAGE_BUS'' \<mapsto> sample_param (clock 1) (PFloat 12.3) ''V'',
           upper ''CURRENT_BUS'' \<mapsto> sample_param (clock 2) (PFloat 2.5) ''A'',
           upper ''MODE_SELECTION'' \<mapsto> sample_param (clock 3) (PStr ''SAFE_MODE'') [],
           upper ''BATTERY_CHARGE'' \<mapsto> sample_param (clock 4) (PInt 85) ''%'')"

definition initial_xml_state :: "(nat \<Rightarrow> string) \<Rightarrow> xml_state" where
  "initial_xml_state clock =
     \<lparr>x_telemetry_store = [],
      x_parameter_store = initialize_sample_parameters clock Map.empty,
      x_command_queue = []\<rparr>"

text \<open>
  \<open>json_get_parameter_values\<close>: as \<open>get_ccsds_parameters\<close>, on the store of this module
  and without the quality field.
\<close>

record json_parameter =
  jp_name :: string
  jp_value :: pyval
  jp_timestamp :: string
  jp_validity :: string
  jp_units :: "string option"

record json_get_parameter_values_response =
  jr_parameters :: "json_parameter list"
  jr_requestId :: string
  jr_timestamp :: string

fun json_parameters_loop ::
  "(nat \<Rightarrow> string) \<Rightarrow> param_store \<Rightarrow> nat \<Rightarrow> string list \<Rightarrow> json_parameter list \<times> nat"
where
  "json_parameters_loop clock store k [] = ([], k)"
| "json_parameters_loop clock store k (param_id # rest) =
     (let param_id_upper = upper param_id in
      case store param_id_upper of
        Some param_data \<Rightarrow>
          (let param = \<lparr>jp_name = param_id_upper,
                        jp_value = pd_value param_data,
                        jp_timestamp = pd_timestamp param_data,
                        jp_validity = pd_validity param_data,
                        jp_units = pd_units param_data\<rparr>;
               (ps, k') = json_parameters_loop clock store k rest
           in (param # ps, k'))
      | None \<Rightarrow>
          (let param = \<lparr>jp_name = param_id_upper,
                        jp_value = PNone,
                        jp_timestamp = clock k,
                        jp_validity = ''INVALID'',
                        jp_units = None\<rparr>;
               (ps, k') = json_parameters_loop clock store (Suc k) rest
           in (param # ps, k')))"

definition json_get_parameter_values ::
  "(nat \<Rightarrow> string) \<Rightarrow> string list \<Rightarrow> string \<Rightarrow> xml_state \<Rightarrow> json_get_parameter_values_response"
where
  "json_get_parameter_values clock parameterIds request_id st =
     (let (ps, k) = json_parameters_loop clock (x_parameter_store st) 0 parameterIds
      in \<lparr>jr_parameters = ps, jr_requestId = request_id, jr_timestamp = clock k\<rparr>)"









text \<open>
  \<open>_process_set_parameter_values_xml\<close>. A pair is extracted from each \<open>parameterSet\<close>
  element under the first \<open>parameterSetList\<close> that has both a \<open>parameterId\<close> and a
  \<open>parameterValue\<close> descendant. The response lists one result for each pair; then one
  command holding all the pairs is appended to \<open>command_queue\<close>. The function does not
  touch \<open>parameter_store\<close>. The clock is read for the response timestamp, for each
  result, and for the command.
\<close>

definition get_param_sets :: "element \<Rightarrow> (string option \<times> element) list" where
  "get_param_sets rt =
     (case find_first ''parameterSetList'' rt of
        None \<Rightarrow> []
      | Some param_set_list \<Rightarrow>
          concat (map (\<lambda>param_set_elem.
                         case (find_first ''parameterId'' param_set_elem,
                               find_first ''parameterValue'' param_set_elem) of
                           (Some param_id_elem, Some param_value_elem) \<Rightarrow>
                             [(elem_text param_id_elem, param_value_elem)]
                         | _ \<Rightarrow> [])
                    (find_all ''parameterSet'' param_set_list)))"

definition result_dict :: "string option \<Rightarrow> string \<Rightarrow> pyval" where
  "result_dict param_id now =
     PDict [(''parameterId'', opt_str param_id),
            (''executionResult'', PDict [(''status'', PStr ''SUCCESS'')]),
            (''completionTime'', PStr now)]"

definition set_parameter_values_response_dict ::
  "(nat \<Rightarrow> string) \<Rightarrow> (string option \<times> element) list \<Rightarrow> string option \<Rightarrow> pyval"
where
  "set_parameter_values_response_dict clock param_sets request_id =
     PDict [(''parameterResultList'',
               PDict [(''parameterResult'',
                         PList (map (\<lambda>(i, param_set). result_dict (fst param_set) (clock (Suc i)))
                                  (enumerate 0 param_sets)))]),
            (''requestId'', opt_str request_id),
            (''timestamp'', PStr (clock 0)),
            (''result'', PDict [(''status'', PStr ''SUCCESS'')])]"

definition process_set_parameter_values_xml ::
  "(pyval \<Rightarrow> string) \<Rightarrow> (nat \<Rightarrow> string) \<Rightarrow> element \<Rightarrow> string option \<Rightarrow> xml_state
     \<Rightarrow> (py_error + element) \<times> xml_state"
where
  "process_set_parameter_values_xml py_str clock rt request_id st =
     (let param_sets = get_param_sets rt;
          response_dict = set_parameter_values_response_dict clock param_sets request_id
      in case dict_to_xml py_str response_dict ''SetParameterValuesResponse'' of
           Inl e \<Rightarrow> (Inl e, st)
         | Inr response_xml \<Rightarrow>
             (Inr response_xml,
              st\<lparr>x_command_queue :=
                   x_command_queue st
                   @ [\<lparr>cmd_request_id = request_id,
                        cmd_parameters = param_sets,
                        cmd_timestamp = clock (Suc (length param_sets))\<rparr>]\<rparr>))"

text \<open>
  Examples: a SetParameterValues request for the new identifier \<open>HEATER_MODE\<close> and a
  GetParameterValues request for three identifiers, as \<open>ET.fromstring\<close> delivers them,
  and \<open>str\<close> on \<open>None\<close>, booleans, integers and strings, the values whose text the
  examples need (any other value is given the empty text here).
\<close>

definition mo_ns :: string where
  "mo_ns = ''{http://www.ccsds.org/schema/Service/MonitorAndControl}''"

definition sample_set_request :: element where
  "sample_set_request =
     Element (mo_ns @ ''SetParameterValuesRequest'') [] None
       [Element (mo_ns @ ''parameterSetList'') [] None
          [Element (mo_ns @ ''parameterSet'') [] None
             [Element (mo_ns @ ''parameterId'') [] (Some ''HEATER_MODE'') [],
              Element (mo_ns @ ''parameterValue'') [] None
                [Element (mo_ns @ ''stringValue'') [] (Some ''ON'') []]]],
        Element (mo_ns @ ''requestId'') [] (Some ''CMD_001'') [],
        Element (mo_ns @ ''executionMode'') [] (Some ''VALIDATED'') []]"


definition sample_str :: "pyval \<Rightarrow> string" where
  "sample_str v =
     (case v of
        PStr s \<Rightarrow> s
      | PNone \<Rightarrow> ''None''
      | PBool b \<Rightarrow> (if b then ''True'' else ''False'')
      | PInt i \<Rightarrow> str_int i
      | _ \<Rightarrow> [])"

text \<open>
  The invariant of the telemetry store of \<open>mo_service.py\<close>: every record is filed under
  its own sequence count, a 14-bit number.
\<close>

definition keyed_by_sequence_count :: "(int \<rightharpoonup> parsed_packet) \<Rightarrow> bool" where
  "keyed_by_sequence_count m =
     (\<forall>k p. m k = Some p \<longrightarrow> sequence_count (header p) = k \<and> 0 \<le> k \<and> k < 16384)"

text \<open>
  Reading a response dictionary: \<open>dict_path v [k1, ..., kn]\<close> is \<open>v[k1]...[kn]\<close>, and
  \<open>None\<close> where a key is missing. \<open>plain_value v\<close> says that no dictionary inside \<open>v\<close>
  has the key \<open>@attributes\<close>; the response dictionaries of the handlers are of this
  kind.
\<close>

fun dict_path :: "pyval \<Rightarrow> string list \<Rightarrow> pyval option" where
  "dict_path v [] = Some v"
| "dict_path (PDict d) (k # ks) = (case map_of d k of None \<Rightarrow> None | Some v \<Rightarrow> dict_path v ks)"
| "dict_path v (k # ks) = None"

fun plain_value :: "pyval \<Rightarrow> bool" where
  "plain_value (PDict d) = list_all (\<lambda>(k, v). k \<noteq> ''@attributes'' \<and> plain_value v) d"
| "plain_value (PList xs) = list_all plain_value xs"
| "plain_value v = True"





section \<open>Trees that survive the XML round trip\<close>

text \<open>
  \<open>tagged_tree t\<close> describes the dictionaries for which the two conversions are inverse.
  A plain XML name is a non-empty string of ASCII letters, digits, \<open>_\<close>, \<open>-\<close> and \<open>.\<close>
  whose first character is a letter or \<open>_\<close> (\<open>xml_name\<close>); a printable ASCII string has
  only characters with codes 32 to 126 (\<open>xml_chars\<close>).
  \<^item> \<open>t\<close> is a dictionary and its keys are distinct.
  \<^item> The value under \<open>@attributes\<close>, when the key is present, is a dictionary that is
    not empty; each of its keys is a plain XML name other than \<open>xmlns\<close>, and each of its
    values is a printable ASCII string.
  \<^item> The value under \<open>#text\<close>, when the key is present, is a printable ASCII string that
    is not empty and neither starts nor ends with a space, and then the dictionary has
    no key other than \<open>@attributes\<close> and \<open>#text\<close>.
  \<^item> Every other key is a plain XML name, and its value is a tagged tree or a list of at
    least two tagged trees.

  These are the names and strings covered by \<open>et_reparse\<close>; the parser changes some other
  strings (it turns a carriage return inside a text into a line feed), and
  \<open>strip\<close> is Python's \<open>str.strip\<close> on ASCII strings.
\<close>

definition reserved :: "string \<Rightarrow> bool" where
  "reserved k = (k = ''@attributes'' \<or> k = ''#text'')"







section \<open>Properties of the packet codec\<close>

subsection \<open>Packing and unpacking\<close>

lemma pack_H_Inr_iff: "pack_H v = Inr bs \<longleftrightarrow> 0 \<le> v \<and> v \<le> 65535 \<and> bs = be16 v"
  by (auto simp: pack_H_def be16_def)

lemma uint_byte_of_int: "0 \<le> k \<Longrightarrow> k < 256 \<Longrightarrow> uint (word_of_int k :: byte) = k"
  by (simp add: uint_word_of_int)

lemma unpack_H_be16:
  assumes "0 \<le> v" "v \<le> 65535"
  shows "unpack_H (word_of_int (v div 256)) (word_of_int (v mod 256)) = v"
proof -
  have "v div 256 < 256" using assms by simp
  moreover have "0 \<le> v div 256" using assms by simp
  ultimately show ?thesis
    by (simp add: unpack_H_def uint_byte_of_int)
qed

subsection \<open>The header words\<close>

lemma or_disjoint_add:
  fixes a :: int
  assumes "0 \<le> a" "a < 2 ^ n"
  shows "push_bit n k OR a = push_bit n k + a"
proof -
  have "\<not> bit (push_bit n k) m \<or> \<not> bit a m" for m
  proof (cases "m < n")
    case True
    then show ?thesis by (simp add: bit_push_bit_iff)
  next
    case False
    then have "2 ^ n \<le> (2::int) ^ m" by simp
    with assms have "a < 2 ^ m" by linarith
    with assms have "a div 2 ^ m = 0" by simp
    then show ?thesis by (simp add: bit_iff_odd)
  qed
  then show ?thesis by (simp add: disjunctive_add)
qed

lemma word1_eq:
  assumes "0 \<le> a" "a < 2048"
  shows "push_bit 13 (0::int) OR push_bit 12 (0::int) OR push_bit 11 (1::int) OR a = 2048 + a"
  using or_disjoint_add[of a 11 1] assms by simp

lemma word2_eq: "push_bit 14 (3::int) OR (c mod 16384) = 49152 + c mod 16384"
  using or_disjoint_add[of "c mod 16384" 14 3] by simp

lemma and_mask_mod:
  "(x::int) AND 0x07FF = x mod 2048"
  "(x::int) AND 0x3FFF = x mod 16384"
  "(x::int) AND 0x07 = x mod 8"
  "(x::int) AND 0x03 = x mod 4"
  "(x::int) AND 0x01 = x mod 2"
  using take_bit_eq_mask[of 11 x] take_bit_eq_mask[of 14 x] take_bit_eq_mask[of 3 x]
    take_bit_eq_mask[of 2 x] take_bit_eq_mask[of 1 x]
  by (simp_all add: mask_eq_exp_minus_1 take_bit_eq_mod)

subsection \<open>The CRC on integers is the CRC on a 16-bit register\<close>

lemma and_mask16: "(x::int) AND 0xFFFF = take_bit 16 x"
  using take_bit_eq_mask[of 16 x] by (simp add: mask_eq_exp_minus_1)

lemma top_bit_test: "(uint (r::16 word) AND 0x8000 \<noteq> 0) = bit r 15"
  using bit_iff_and_push_bit_not_eq_0[of "uint r" 15] by (simp add: bit_uint_iff)

lemma uint_shift_left: "uint (push_bit 1 (r::16 word)) = take_bit 16 (push_bit 1 (uint r))"
  by (simp add: uint_word_ariths take_bit_eq_mod)

lemma crc_shift_word:
  "(if uint r AND 0x8000 \<noteq> 0 then push_bit 1 (uint r) XOR 0x1021 else push_bit 1 (uint r))
     AND 0xFFFF = uint (crc16_shift (r::16 word))"
proof -
  have "take_bit 16 (push_bit 1 (uint r) XOR 0x1021) = uint (push_bit 1 r XOR 0x1021)"
    unfolding uint_xor uint_shift_left take_bit_xor by simp
  then show ?thesis
    unfolding and_mask16 top_bit_test crc16_shift_def
    by (simp only: uint_shift_left if_distrib[of uint] if_distrib[of "take_bit 16"])
qed

lemma crc_bits_word: "crc_bits n (uint (r::16 word)) = uint ((crc16_shift ^^ n) r)"
proof (induction n arbitrary: r)
  case 0
  show ?case by simp
next
  case (Suc n)
  show ?case
    by (simp only: crc_bits.simps crc_shift_word Suc.IH funpow_Suc_right o_apply)
qed

lemma xor_byte_word:
  "uint (r::16 word) XOR push_bit 8 (uint (b::byte)) = uint (r XOR push_bit 8 (ucast b))"
proof -
  have u: "uint (ucast b :: 16 word) = uint b"
    by (simp add: uint_up_ucast is_up)
  have "uint b < 256" using uint_lt2p[of b] by simp
  then have "uint (push_bit 8 (ucast b :: 16 word)) = push_bit 8 (uint b)"
    by (simp add: push_bit_eq_mult uint_word_ariths u)
  then show ?thesis by (simp add: uint_xor)
qed

lemma crc_bytes_word: "crc_bytes (uint (r::16 word)) bs = uint (foldl crc16_byte r bs)"
proof (induction bs arbitrary: r)
  case Nil
  show ?case by simp
next
  case (Cons b bs)
  show ?case
    by (simp only: crc_bytes.simps xor_byte_word crc_bits_word Cons.IH foldl_Cons
        crc16_byte_def)
qed

lemma calculate_crc_word: "calculate_crc bs = uint (crc16_ccitt bs)"
proof -
  have "(0xFFFF::int) = uint (0xFFFF :: 16 word)" by simp
  then show ?thesis
    unfolding calculate_crc_def crc16_ccitt_def by (simp only: crc_bytes_word)
qed

lemma calculate_crc_range: "0 \<le> calculate_crc bs \<and> calculate_crc bs \<le> 65535"
proof -
  have "uint (crc16_ccitt bs) < 2 ^ 16" using uint_lt2p[of "crc16_ccitt bs"] by simp
  then show ?thesis by (simp add: calculate_crc_word)
qed

subsection \<open>The encoder in closed form\<close>

lemma and_then_pack_H:
  "and_then (pack_H v) f = (if 0 \<le> v \<and> v \<le> 65535 then f (be16 v) else Inl StructError)"
  by (simp add: and_then_def pack_H_def be16_def)

lemma and_then_pack_B:
  "and_then (pack_B v) f = (if 0 \<le> v \<and> v \<le> 255 then f [word_of_int v] else Inl StructError)"
  by (simp add: and_then_def pack_B_def)

lemma and_then_pack_I:
  "and_then (pack_I v) f =
     (if 0 \<le> v \<and> v \<le> 4294967295 then f (be32 v) else Inl StructError)"
  by (simp add: and_then_def pack_I_def be32_def)

lemma create_ccsds_packet_eq:
  "create_ccsds_packet json_dumps now_s self data =
     (if 0 \<le> (push_bit 11 1 OR sim_apid self) \<and> (push_bit 11 1 OR sim_apid self) \<le> 65535
         \<and> int (length (json_dumps data)) \<le> 65529
      then Inr (encode_body json_dumps now_s self data
                  @ be16 (calculate_crc (encode_body json_dumps now_s self data)),
                self\<lparr>packet_counter := packet_counter self + 1\<rparr>)
      else Inl StructError)"
proof -
  have ts: "0 \<le> now_s mod 86400 \<and> now_s mod 86400 \<le> 4294967295"
  proof -
    have "now_s mod 86400 < 86400" by simp
    then show ?thesis by simp
  qed
  have w2: "0 \<le> 49152 + packet_counter self mod 16384
      \<and> 49152 + packet_counter self mod 16384 \<le> 65535"
  proof -
    have "packet_counter self mod 16384 < 16384" "0 \<le> packet_counter self mod 16384"
      by simp_all
    then show ?thesis by simp
  qed
  have w3: "11 + int (length (json_dumps data)) + 2 - 7 = int (length (json_dumps data)) + 6"
    by simp
  have w3r: "(0 \<le> int (length (json_dumps data)) + 6 \<and> int (length (json_dumps data)) + 6 \<le> 65535)
      = (int (length (json_dumps data)) \<le> 65529)"
    by auto
  have w1: "push_bit 13 (0::int) OR push_bit 12 (0::int) OR push_bit 11 (1::int) OR sim_apid self
      = push_bit 11 1 OR sim_apid self"
    by simp
  show ?thesis
    unfolding create_ccsds_packet_def Let_def and_then_pack_H and_then_pack_B and_then_pack_I
      word2_eq w3 w3r w1 encode_body_def
    using ts w2 calculate_crc_range by (simp del: push_bit_of_1)
qed

subsection \<open>The decoder in closed form\<close>

lemma six_decomp:
  assumes "6 \<le> length xs"
  shows "\<exists>a b c d e f rest. xs = a # b # c # d # e # f # rest"
proof -
  have "Suc (Suc (Suc (Suc (Suc (Suc 0))))) \<le> length xs" using assms by simp
  then show ?thesis by (auto simp: Suc_le_length_iff)
qed

lemma parse_packet_long:
  assumes "6 \<le> length data"
  shows "parse_packet json_loads now data =
     Inr \<lparr>header = header_of data,
          telemetry =
            (if secondary_header_flag data \<noteq> 0 \<and> 20 \<le> length data
             then (case json_loads (payload_of data) of
                     Some t \<Rightarrow> t
                   | None \<Rightarrow> raw_telemetry (payload_of data))
             else raw_telemetry (drop 6 data)),
          raw_size = length data,
          pkt_timestamp = now\<rparr>"
proof -
  from six_decomp[OF assms] obtain a b c d e f rest
    where data: "data = a # b # c # d # e # f # rest"
    by blast
  have u: "unpack_HHH (take 6 data) = Inr (unpack_H a b, unpack_H c d, unpack_H e f)"
    by (simp add: data unpack_HHH_def)
  have n: "data ! 0 = a" "data ! 1 = b" "data ! 2 = c" "data ! 3 = d" "data ! 4 = e"
    "data ! 5 = f"
    by (simp_all add: data)
  have c: "(17 \<le> length data \<and> int 17 < int (length data) - 2) = (20 \<le> length data)"
    by auto
  have l: "\<not> length data < 6" using assms by simp
  show ?thesis
    unfolding parse_packet_def u header_of_def secondary_header_flag_def n payload_of_def
      raw_telemetry_def Let_def
    apply (simp only: l if_False sum.case prod.case)
    using c apply (simp split: option.splits)
    done
qed

lemma encode_body_length: "length (encode_body jd now_s self data) = 17 + length (jd data)"
  by (simp add: encode_body_def be16_def be32_def)

lemma be16_length: "length (be16 v) = 2"
  by (simp add: be16_def)

lemma drop_bit_div:
  "drop_bit 11 (x::int) = x div 2048"
  "drop_bit 12 x = x div 4096"
  "drop_bit 13 x = x div 8192"
  "drop_bit 14 x = x div 16384"
  by (simp_all add: drop_bit_eq_div)

lemma header_of_sel:
  "apid (header_of d) = unpack_H (d ! 0) (d ! 1) AND 0x07FF"
  "sequence_count (header_of d) = unpack_H (d ! 2) (d ! 3) AND 0x3FFF"
  "data_length (header_of d) = unpack_H (d ! 4) (d ! 5)"
  by (simp_all add: header_of_def Let_def)

lemma create_ccsds_packet_sample:
  "create_ccsds_packet (\<lambda>_. [0x7B, 0x7D]) 1700000000
     \<lparr>sim_apid = 100, packet_counter = 16385\<rparr> (PDict [])
   = Inr ([8, 100, 192, 1, 0, 8, 0, 1, 56, 128, 1, 3, 1, 3, 232, 7, 208, 123, 125, 143, 165],
          \<lparr>sim_apid = 100, packet_counter = 16386\<rparr>)"
  by code_simp

section \<open>Claims about the packet codec\<close>

text \<open>Decoding a packet that the encoder produced.\<close>

lemma decode_produced_packet:
  assumes apid: "0 \<le> sim_apid self" "sim_apid self \<le> 2047"
    and json: "json_loads (json_dumps data) = Some data" "json_dumps data \<noteq> []"
    and enc: "create_ccsds_packet json_dumps now_s self data = Inr (packet, self')"
  shows "\<exists>p. parse_packet json_loads now packet = Inr p
           \<and> apid (header p) = sim_apid self
           \<and> sequence_count (header p) = packet_counter self mod 16384
           \<and> telemetry p = data"
proof -
  let ?body = "encode_body json_dumps now_s self data"
  let ?a = "sim_apid self"
  let ?s = "packet_counter self mod 16384"
  from enc have p: "packet = ?body @ be16 (calculate_crc ?body)"
    by (simp add: create_ccsds_packet_eq split: if_splits)
  have len: "length packet = 19 + length (json_dumps data)"
    by (simp add: p encode_body_length be16_length)
  then have len20: "20 \<le> length packet"
    using json(2) by (cases "json_dumps data") simp_all
  have w1: "push_bit 11 1 OR ?a = 2048 + ?a"
    using or_disjoint_add[of ?a 11 1] apid by simp
  have s: "0 \<le> ?s" "?s < 16384" by simp_all
  have n01: "unpack_H (packet ! 0) (packet ! 1) = 2048 + ?a"
    using unpack_H_be16[of "2048 + ?a"] apid
    by (simp add: p encode_body_def be16_def w1 del: push_bit_of_1)
  have n23: "unpack_H (packet ! 2) (packet ! 3) = 49152 + ?s"
    using unpack_H_be16[of "49152 + ?s"] s
    by (simp add: p encode_body_def be16_def)
  have flag: "secondary_header_flag packet = 1"
    unfolding secondary_header_flag_def n01
    using apid by (simp add: and_mask_mod drop_bit_div)
  have "\<exists>pre. length pre = 17 \<and> ?body = pre @ json_dumps data"
    by (simp add: encode_body_def be16_def be32_def)
  then obtain pre where pre: "length pre = 17" "?body = pre @ json_dumps data"
    by blast
  have "take (length packet - 2) packet = ?body"
    by (simp add: p be16_length)
  then have pay: "payload_of packet = json_dumps data"
    by (simp add: payload_of_def pre)
  have h1: "apid (header_of packet) = ?a"
    unfolding header_of_sel n01 using apid by (simp add: and_mask_mod)
  have h2: "sequence_count (header_of packet) = ?s"
  proof -
    have "(49152 + ?s) mod 16384 = (3 * 16384 + ?s) mod 16384" by simp
    also have "\<dots> = ?s mod 16384" by (rule mod_mult_self3)
    finally have "(49152 + ?s) mod 16384 = ?s" by simp
    then show ?thesis unfolding header_of_sel n23 by (simp only: and_mask_mod)
  qed
  from len20 have "6 \<le> length packet" by simp
  from parse_packet_long[OF this, of json_loads now] show ?thesis
    using flag len20 pay json(1) h1 h2 by simp
qed

text \<open>
  C3. Round trip. For every APID in 0..2047, every counter value and every payload that
  the JSON library decodes back to the dictionary it encoded (\<open>json.dumps\<close> never
  returns the empty string) and that has at most 65529 bytes, so that the length field
  fits its 16 bits, \<open>create_ccsds_packet\<close> produces a packet and advances the counter,
  and decoding that packet succeeds and gives the APID, the counter modulo 16384 as
  sequence count, and the dictionary as telemetry.
\<close>

theorem encode_decode_roundtrip:
  assumes apid: "0 \<le> sim_apid self" "sim_apid self \<le> 2047"
    and json: "json_loads (json_dumps data) = Some data" "json_dumps data \<noteq> []"
    and size: "length (json_dumps data) \<le> 65529"
  shows "\<exists>packet.
           create_ccsds_packet json_dumps now_s self data
             = Inr (packet, self\<lparr>packet_counter := packet_counter self + 1\<rparr>)
           \<and> (\<exists>p. parse_packet json_loads now packet = Inr p
                  \<and> apid (header p) = sim_apid self
                  \<and> sequence_count (header p) = packet_counter self mod 16384
                  \<and> telemetry p = data)"
proof -
  let ?body = "encode_body json_dumps now_s self data"
  let ?packet = "?body @ be16 (calculate_crc ?body)"
  have w1: "push_bit 11 1 OR sim_apid self = 2048 + sim_apid self"
    using or_disjoint_add[of "sim_apid self" 11 1] apid by simp
  have range: "0 \<le> push_bit 11 1 OR sim_apid self" "push_bit 11 1 OR sim_apid self \<le> 65535"
    unfolding w1 using apid by simp_all
  have len: "int (length (json_dumps data)) \<le> 65529"
    using size by simp
  have enc: "create_ccsds_packet json_dumps now_s self data
      = Inr (?packet, self\<lparr>packet_counter := packet_counter self + 1\<rparr>)"
    unfolding create_ccsds_packet_eq using range len by (simp del: push_bit_of_1)
  have "\<exists>p. parse_packet json_loads now ?packet = Inr p
           \<and> apid (header p) = sim_apid self
           \<and> sequence_count (header p) = packet_counter self mod 16384
           \<and> telemetry p = data"
    using apid json enc by (rule decode_produced_packet)
  with enc show ?thesis
    by blast
qed

theorem encode_decode_roundtrip_witness:
  "\<exists>packet.
     create_ccsds_packet (\<lambda>d. [0x7B, 0x7D]) 1700000000
       \<lparr>sim_apid = 100, packet_counter = 16385\<rparr> (PDict [])
       = Inr (packet, \<lparr>sim_apid = 100, packet_counter = 16386\<rparr>)
     \<and> (\<exists>p. parse_packet (\<lambda>bs. if bs = [0x7B, 0x7D] then Some (PDict []) else None) ''t''
                packet = Inr p
            \<and> apid (header p) = 100 \<and> sequence_count (header p) = 1
            \<and> telemetry p = PDict [])"
  using encode_decode_roundtrip[of "\<lparr>sim_apid = 100, packet_counter = 16385\<rparr>"
      "\<lambda>bs. if bs = [0x7B, 0x7D] then Some (PDict []) else None" "\<lambda>d. [0x7B, 0x7D]"
      "PDict []" 1700000000 "''t''"]
  by simp

text \<open>
  C4. CRC trailer. The last two bytes of a packet produced by \<open>create_ccsds_packet\<close>
  are the big-endian CRC of all the bytes before them, and \<open>_calculate_crc\<close> is the
  bit-serial CRC of the specification on a 16-bit register: initial value 0xFFFF, each
  byte xored into the high byte, then eight left shifts, each xoring the polynomial
  0x1021 when the top bit was set.
\<close>

theorem crc_trailer:
  assumes "create_ccsds_packet json_dumps now_s self data = Inr (packet, self')"
  shows "pack_H (calculate_crc (take (length packet - 2) packet))
           = Inr (drop (length packet - 2) packet)
         \<and> (\<forall>bs. calculate_crc bs = uint (crc16_ccitt bs))"
proof -
  let ?body = "encode_body json_dumps now_s self data"
  from assms have p: "packet = ?body @ be16 (calculate_crc ?body)"
    by (simp add: create_ccsds_packet_eq split: if_splits)
  have "length packet - 2 = length ?body"
    by (simp add: p be16_length)
  then have "take (length packet - 2) packet = ?body"
    "drop (length packet - 2) packet = be16 (calculate_crc ?body)"
    by (simp_all add: p)
  then show ?thesis
    using calculate_crc_range[of ?body] by (simp add: pack_H_Inr_iff calculate_crc_word)
qed

theorem crc_trailer_witness:
  "pack_H (calculate_crc [8, 100, 192, 1, 0, 8, 0, 1, 56, 128, 1, 3, 1, 3, 232, 7, 208, 123, 125])
     = Inr [143, 165]
   \<and> (\<forall>bs. calculate_crc bs = uint (crc16_ccitt bs))"
proof -
  let ?pkt = "[8, 100, 192, 1, 0, 8, 0, 1, 56, 128, 1, 3, 1, 3, 232, 7, 208, 123, 125, 143, 165]
    :: byte list"
  have t: "take (length ?pkt - 2) ?pkt
      = [8, 100, 192, 1, 0, 8, 0, 1, 56, 128, 1, 3, 1, 3, 232, 7, 208, 123, 125]"
    and d: "drop (length ?pkt - 2) ?pkt = [143, 165]"
    by simp_all
  show ?thesis
    using crc_trailer[OF create_ccsds_packet_sample] unfolding t d .
qed

text \<open>
  C5. Length field. In a packet produced by \<open>create_ccsds_packet\<close> with payload \<open>p\<close>, the
  third 16-bit word of the primary header (bytes 4 and 5, big-endian) is
  \<open>(11 + len(p) + 2) - 7\<close>.
\<close>

theorem declared_length_field:
  assumes "create_ccsds_packet json_dumps now_s self data = Inr (packet, self')"
  shows "unpack_H (packet ! 4) (packet ! 5) = (11 + int (length (json_dumps data)) + 2) - 7"
proof -
  let ?body = "encode_body json_dumps now_s self data"
  from assms have p: "packet = ?body @ be16 (calculate_crc ?body)"
    and l: "int (length (json_dumps data)) \<le> 65529"
    by (simp_all add: create_ccsds_packet_eq split: if_splits)
  have "packet ! 4 = word_of_int ((int (length (json_dumps data)) + 6) div 256)"
    "packet ! 5 = word_of_int ((int (length (json_dumps data)) + 6) mod 256)"
    by (simp_all add: p encode_body_def be16_def)
  then show ?thesis
    using l unpack_H_be16[of "int (length (json_dumps data)) + 6"] by simp
qed

theorem declared_length_field_witness:
  "unpack_H (0 :: byte) 8 = (11 + int (length [0x7B :: byte, 0x7D]) + 2) - 7"
  using declared_length_field[OF create_ccsds_packet_sample] by simp

lemma header_of_cong:
  assumes "\<And>i. i < 6 \<Longrightarrow> xs ! i = ys ! i"
  shows "header_of xs = header_of ys" "secondary_header_flag xs = secondary_header_flag ys"
  using assms by (simp_all add: header_of_def secondary_header_flag_def)

lemma sample_packet_ok: "20 \<le> length sample_packet" "secondary_header_flag sample_packet \<noteq> 0"
  by (simp add: sample_packet_def, code_simp)

text \<open>
  C6. Decoding is total. A buffer of fewer than 6 bytes gives the too-short error. Every
  other buffer gives a decoded packet and never the parse-error value: its telemetry is
  the decoded JSON when the secondary-header flag is set, the buffer has at least 20
  bytes and the payload slice decodes, and the raw-hex dictionary otherwise (of the
  payload slice when only the JSON decoding failed, of everything after the primary
  header when the flag is unset or the buffer is shorter).
\<close>

theorem parse_packet_total:
  "(length data < 6 \<longrightarrow> parse_packet json_loads now data = Inl PacketTooShort)
   \<and> (6 \<le> length data \<longrightarrow>
        (\<exists>p. parse_packet json_loads now data = Inr p
           \<and> telemetry p =
               (if secondary_header_flag data \<noteq> 0 \<and> 20 \<le> length data
                then (case json_loads (payload_of data) of
                        Some t \<Rightarrow> t
                      | None \<Rightarrow> raw_telemetry (payload_of data))
                else raw_telemetry (drop 6 data))))"
proof (intro conjI impI)
  assume "length data < 6"
  then show "parse_packet json_loads now data = Inl PacketTooShort"
    by (simp add: parse_packet_def)
next
  assume "6 \<le> length data"
  from parse_packet_long[OF this, of json_loads now]
  show "\<exists>p. parse_packet json_loads now data = Inr p
           \<and> telemetry p =
               (if secondary_header_flag data \<noteq> 0 \<and> 20 \<le> length data
                then (case json_loads (payload_of data) of
                        Some t \<Rightarrow> t
                      | None \<Rightarrow> raw_telemetry (payload_of data))
                else raw_telemetry (drop 6 data))"
    by simp
qed

theorem parse_packet_total_witness:
  "parse_packet (\<lambda>bs. None) ''t'' [1, 2, 3] = Inl PacketTooShort
   \<and> (\<exists>p. parse_packet (\<lambda>bs. None) ''t'' [8, 100, 192, 1, 0, 8, 255] = Inr p
          \<and> telemetry p = PDict [(''raw'', PStr ''ff'')])"
  using parse_packet_total[of "[1, 2, 3]" "\<lambda>bs. None" "''t''"]
    parse_packet_total[of "[8, 100, 192, 1, 0, 8, 255]" "\<lambda>bs. None" "''t''"]
  by (simp add: raw_telemetry_def hex_def hex_digit_def)

text \<open>
  C7. The decoder checks neither the CRC nor the length field. For a buffer of at least
  20 bytes with the secondary-header flag set, decoding succeeds; replacing the last two
  bytes by any two bytes leaves the whole result unchanged; replacing bytes 4 and 5 (the
  declared length) by any two bytes changes only the \<open>data_length\<close> that is reported.
\<close>

theorem parse_packet_ignores_crc_and_length:
  assumes len: "20 \<le> length data" and flag: "secondary_header_flag data \<noteq> 0"
  shows "(\<exists>p. parse_packet json_loads now data = Inr p)
    \<and> (\<forall>c1 c2. parse_packet json_loads now (take (length data - 2) data @ [c1, c2])
                  = parse_packet json_loads now data)
    \<and> (\<forall>l1 l2. \<exists>p. parse_packet json_loads now data = Inr p
           \<and> parse_packet json_loads now (take 4 data @ [l1, l2] @ drop 6 data)
               = Inr (p\<lparr>header := (header p)\<lparr>data_length := unpack_H l1 l2\<rparr>\<rparr>))"
proof (intro conjI allI)
  from len have six: "6 \<le> length data" by simp
  show "\<exists>p. parse_packet json_loads now data = Inr p"
    by (simp add: parse_packet_long[OF six])
  fix c1 c2
  let ?d = "take (length data - 2) data @ [c1, c2]"
  have l: "length ?d = length data" using len by simp
  have nth: "?d ! i = data ! i" if "i < 6" for i
  proof -
    from that len have "i < length data - 2" by linarith
    then show ?thesis by (simp add: nth_append)
  qed
  have pay: "payload_of ?d = payload_of data"
    by (simp add: payload_of_def l)
  have six': "6 \<le> length ?d" using six l by simp
  show "parse_packet json_loads now ?d = parse_packet json_loads now data"
  proof -
    have h: "header_of ?d = header_of data"
      by (rule header_of_cong) (rule nth)
    have fl: "secondary_header_flag ?d = secondary_header_flag data"
      by (rule header_of_cong) (rule nth)
    show ?thesis
      unfolding parse_packet_long[OF six'] parse_packet_long[OF six] h fl pay l
      using len flag by simp
  qed
next
  fix l1 l2
  from len have six: "6 \<le> length data" by simp
  let ?d = "take 4 data @ [l1, l2] @ drop 6 data"
  from six_decomp[OF six] obtain a b c d e f rest
    where data: "data = a # b # c # d # e # f # rest"
    by blast
  have d: "?d = a # b # c # d # l1 # l2 # rest" by (simp add: data)
  have l: "length ?d = length data" by (simp add: data)
  have pay: "payload_of ?d = payload_of data"
    unfolding payload_of_def l using len by (simp add: data drop_take)
  have fl: "secondary_header_flag ?d = secondary_header_flag data"
    unfolding d by (simp add: data secondary_header_flag_def)
  have h: "header_of ?d = (header_of data)\<lparr>data_length := unpack_H l1 l2\<rparr>"
    unfolding d by (simp add: data header_of_def Let_def)
  have six': "6 \<le> length ?d" using six l by simp
  show "\<exists>p. parse_packet json_loads now data = Inr p
           \<and> parse_packet json_loads now ?d
               = Inr (p\<lparr>header := (header p)\<lparr>data_length := unpack_H l1 l2\<rparr>\<rparr>)"
    unfolding parse_packet_long[OF six'] parse_packet_long[OF six] pay fl h l
    using len flag by simp
qed


theorem parse_packet_ignores_crc_and_length_witness:
  "parse_packet (\<lambda>bs. None) ''t'' (take (length sample_packet - 2) sample_packet @ [0, 0])
     = parse_packet (\<lambda>bs. None) ''t'' sample_packet
   \<and> (\<exists>p. parse_packet (\<lambda>bs. None) ''t'' sample_packet = Inr p
         \<and> parse_packet (\<lambda>bs. None) ''t'' (take 4 sample_packet @ [255, 255] @ drop 6 sample_packet)
             = Inr (p\<lparr>header := (header p)\<lparr>data_length := unpack_H 255 255\<rparr>\<rparr>))"
  using parse_packet_ignores_crc_and_length[OF sample_packet_ok, of "\<lambda>bs. None" "''t''"]
  by blast

section \<open>Claims about GetParameterValues\<close>

lemma get_parameters_loop_Cons:
  "fst (get_parameters_loop clock store k (x # xs)) =
     (case store (upper x) of
        Some d \<Rightarrow>
          \<lparr>p_name = upper x, p_value = pd_value d, p_timestamp = pd_timestamp d,
           p_validity = pd_validity d, p_units = pd_units d,
           p_quality = (case pd_quality d of Some q \<Rightarrow> Some q | None \<Rightarrow> Some ''GOOD'')\<rparr>
          # fst (get_parameters_loop clock store k xs)
      | None \<Rightarrow>
          \<lparr>p_name = upper x, p_value = PNone, p_timestamp = clock k,
           p_validity = ''INVALID'', p_units = None, p_quality = Some ''UNKNOWN''\<rparr>
          # fst (get_parameters_loop clock store (Suc k) xs))"
  by (simp add: Let_def split: option.splits prod.splits)

lemma get_parameters_loop_length:
  "length (fst (get_parameters_loop clock store k ids)) = length ids"
proof (induction ids arbitrary: k)
  case Nil
  show ?case by simp
next
  case (Cons x xs)
  show ?case
    unfolding get_parameters_loop_Cons by (simp add: Cons.IH split: option.splits)
qed

lemma get_parameters_loop_nth:
  assumes "i < length ids"
  shows "fst (get_parameters_loop clock store k ids) ! i =
     (case store (upper (ids ! i)) of
        Some d \<Rightarrow> \<lparr>p_name = upper (ids ! i), p_value = pd_value d, p_timestamp = pd_timestamp d,
                   p_validity = pd_validity d, p_units = pd_units d,
                   p_quality = (case pd_quality d of Some q \<Rightarrow> Some q | None \<Rightarrow> Some ''GOOD'')\<rparr>
      | None \<Rightarrow> \<lparr>p_name = upper (ids ! i), p_value = PNone,
                  p_timestamp = clock (k + length (filter (\<lambda>x. store (upper x) = None) (take i ids))),
                  p_validity = ''INVALID'', p_units = None, p_quality = Some ''UNKNOWN''\<rparr>)"
  using assms
proof (induction ids arbitrary: k i)
  case Nil
  then show ?case by simp
next
  case (Cons x xs)
  show ?case
  proof (cases i)
    case 0
    then show ?thesis
      unfolding get_parameters_loop_Cons by (simp split: option.splits)
  next
    case (Suc j)
    with Cons.prems have j: "j < length xs" by simp
    show ?thesis
    proof (cases "store (upper x)")
      case None
      then show ?thesis
        unfolding get_parameters_loop_Cons
        using Cons.IH[OF j, of "Suc k"] by (simp add: Suc split: option.splits)
    next
      case (Some d)
      then show ?thesis
        unfolding get_parameters_loop_Cons
        using Cons.IH[OF j, of k] by (simp add: Suc split: option.splits)
    qed
  qed
qed

lemma upper_samples: "upper ''a'' = ''A''" "upper ''b'' = ''B''" "upper ''missing'' = ''MISSING''"
  by code_simp+

text \<open>
  C2. GetParameterValues returns one result for each identifier of the request, in the
  order of the request, under the upper-cased identifier. For an identifier in the store
  the result carries the stored value, timestamp, validity and units, and the stored
  quality (\<open>GOOD\<close> when the entry has none); for an identifier not in the store it
  carries no value, validity \<open>INVALID\<close>, quality \<open>UNKNOWN\<close>, no units, and the clock
  reading taken at that identifier. The handler has no failing branch: a missing
  parameter only selects the second shape.
\<close>

theorem get_ccsds_parameters_results:
  "length (parameters (get_ccsds_parameters clock ids rid st)) = length ids
   \<and> requestId (get_ccsds_parameters clock ids rid st) = rid
   \<and> (\<forall>i < length ids.
         let p = parameters (get_ccsds_parameters clock ids rid st) ! i;
             u = upper (ids ! i)
         in p_name p = u
            \<and> (case parameter_store st u of
                 Some d \<Rightarrow>
                   p_value p = pd_value d \<and> p_timestamp p = pd_timestamp d
                   \<and> p_validity p = pd_validity d \<and> p_units p = pd_units d
                   \<and> p_quality p = (case pd_quality d of Some q \<Rightarrow> Some q | None \<Rightarrow> Some ''GOOD'')
               | None \<Rightarrow>
                   p_value p = PNone \<and> p_validity p = ''INVALID''
                   \<and> p_quality p = Some ''UNKNOWN'' \<and> p_units p = None
                   \<and> p_timestamp p =
                       clock (length (filter (\<lambda>x. parameter_store st (upper x) = None)
                                        (take i ids)))))"
proof -
  have ps: "parameters (get_ccsds_parameters clock ids rid st)
      = fst (get_parameters_loop clock (parameter_store st) 0 ids)"
    by (simp add: get_ccsds_parameters_def split: prod.splits)
  have rid: "requestId (get_ccsds_parameters clock ids rid st) = rid"
    by (simp add: get_ccsds_parameters_def split: prod.splits)
  show ?thesis
    unfolding ps
    using rid get_parameters_loop_nth[of _ ids clock "parameter_store st" 0]
    by (auto simp: get_parameters_loop_length Let_def split: option.splits)
qed


theorem get_ccsds_parameters_results_witness:
  "length (parameters (get_ccsds_parameters (\<lambda>k. ''now'') [''a'', ''b'', ''missing''] ''r1'' sample_mo_state)) = 3
   \<and> p_value (parameters (get_ccsds_parameters (\<lambda>k. ''now'') [''a'', ''b'', ''missing''] ''r1'' sample_mo_state) ! 0) = PFloat 12.3
   \<and> p_validity (parameters (get_ccsds_parameters (\<lambda>k. ''now'') [''a'', ''b'', ''missing''] ''r1'' sample_mo_state) ! 2) = ''INVALID''
   \<and> p_value (parameters (get_ccsds_parameters (\<lambda>k. ''now'') [''a'', ''b'', ''missing''] ''r1'' sample_mo_state) ! 2) = PNone"
proof -
  note t = get_ccsds_parameters_results[of "\<lambda>k. ''now''" "[''a'', ''b'', ''missing'']" "''r1''" sample_mo_state]
  from t have l: "length (parameters (get_ccsds_parameters (\<lambda>k. ''now'') [''a'', ''b'', ''missing''] ''r1'' sample_mo_state)) = 3"
    by simp
  from t[THEN conjunct2, THEN conjunct2, rule_format, of 0]
  have a: "p_value (parameters (get_ccsds_parameters (\<lambda>k. ''now'') [''a'', ''b'', ''missing''] ''r1'' sample_mo_state) ! 0) = PFloat 12.3"
    by (simp add: Let_def upper_samples sample_mo_state_def sample_entry_def)
  from t[THEN conjunct2, THEN conjunct2, rule_format, of 2]
  have b: "p_validity (parameters (get_ccsds_parameters (\<lambda>k. ''now'') [''a'', ''b'', ''missing''] ''r1'' sample_mo_state) ! 2) = ''INVALID''
    \<and> p_value (parameters (get_ccsds_parameters (\<lambda>k. ''now'') [''a'', ''b'', ''missing''] ''r1'' sample_mo_state) ! 2) = PNone"
    by (simp add: Let_def upper_samples sample_mo_state_def)
  from l a b show ?thesis by blast
qed

section \<open>Claims about the telemetry log\<close>

lemma sequence_count_range:
  "0 \<le> sequence_count (header_of data) \<and> sequence_count (header_of data) < 16384"
  unfolding header_of_sel by (simp add: and_mask_mod)

lemma parse_packet_Inr_header:
  assumes "parse_packet json_loads now data = Inr p"
  shows "header p = header_of data"
proof -
  from assms have "6 \<le> length data"
    by (cases "length data < 6") (simp_all add: parse_packet_def)
  from parse_packet_long[OF this, of json_loads now] assms show ?thesis by auto
qed

lemma receive_datagram_Inr:
  assumes "parse_packet json_loads now data = Inr p"
  shows "telemetry_store (receive_datagram json_loads now data st)
           = (telemetry_store st)(sequence_count (header p) \<mapsto> p)"
  using assms by (simp add: receive_datagram_def Let_def split: pyval.splits)

lemma receive_datagram_Inl:
  assumes "parse_packet json_loads now data = Inl e"
  shows "receive_datagram json_loads now data st = st"
  using assms by (simp add: receive_datagram_def)

lemma receive_datagram_keyed:
  assumes "keyed_by_sequence_count (telemetry_store st)"
  shows "keyed_by_sequence_count (telemetry_store (receive_datagram json_loads now data st))"
proof (cases "parse_packet json_loads now data")
  case (Inl e)
  then show ?thesis using assms by (simp add: receive_datagram_Inl)
next
  case (Inr p)
  have "0 \<le> sequence_count (header p) \<and> sequence_count (header p) < 16384"
    using sequence_count_range[of data] parse_packet_Inr_header[OF Inr] by simp
  then show ?thesis
    using assms unfolding receive_datagram_Inr[OF Inr] keyed_by_sequence_count_def
    by auto
qed

lemma run_receiver_keyed:
  assumes "keyed_by_sequence_count (telemetry_store st)"
  shows "keyed_by_sequence_count (telemetry_store (run_receiver json_loads ds st))"
  using assms
proof (induction ds arbitrary: st)
  case Nil
  then show ?case by simp
next
  case (Cons d ds)
  obtain now data where d: "d = (now, data)" by (cases d)
  show ?case
    unfolding d run_receiver.simps
    by (rule Cons.IH) (rule receive_datagram_keyed[OF Cons.prems])
qed

lemma dict_set_fresh: "k \<notin> fst ` set d \<Longrightarrow> dict_set k v d = d @ [(k, v)]"
  by (induction d) auto

lemma xml_run_receiver_keys:
  assumes "map fst (x_telemetry_store st) = [0..<length (x_telemetry_store st)]"
  shows "map fst (x_telemetry_store (xml_run_receiver ds st))
           = [0..<length (x_telemetry_store st) + length ds]"
  using assms
proof (induction ds arbitrary: st)
  case Nil
  then show ?case by simp
next
  case (Cons d ds)
  obtain now addr data where d: "d = (now, addr, data)" by (cases d)
  let ?st = "xml_receive_datagram now addr data st"
  have "length (x_telemetry_store st) \<notin> fst ` set (x_telemetry_store st)"
  proof -
    have "fst ` set (x_telemetry_store st) = set [0..<length (x_telemetry_store st)]"
      using Cons.prems by (metis set_map)
    then show ?thesis by simp
  qed
  then have s: "x_telemetry_store ?st = x_telemetry_store st
      @ [(length (x_telemetry_store st), \<lparr>dr_source = addr, dr_size = length data, dr_timestamp = now\<rparr>)]"
    by (simp add: xml_receive_datagram_def Let_def dict_set_fresh)
  have "map fst (x_telemetry_store ?st) = [0..<length (x_telemetry_store ?st)]"
    unfolding s using Cons.prems by simp
  from Cons.IH[OF this] show ?case
    unfolding d xml_run_receiver.simps s by simp
qed

lemma sample_packet_sequence_count: "sequence_count (header_of sample_packet) = 1"
  by code_simp

text \<open>
  C8, as the code has it. In \<open>mo_service.py\<close> a datagram that decodes is stored under its
  sequence count, a number in 0..16383, replacing whatever was stored under that count,
  so that every record of the store is filed under its own sequence count. The receiver
  of \<open>mo_service_xml.py\<close> does not decode: it files a record of each datagram under the
  number of records already stored, so after \<open>n\<close> datagrams the keys are \<open>0..n-1\<close> and
  nothing has been replaced.
\<close>

theorem telemetry_log_keys:
  "(\<forall>p. parse_packet json_loads now data = Inr p \<longrightarrow>
        telemetry_store (receive_datagram json_loads now data st)
          = (telemetry_store st)(sequence_count (header p) \<mapsto> p)
        \<and> 0 \<le> sequence_count (header p) \<and> sequence_count (header p) < 16384)
   \<and> (\<forall>k p. telemetry_store (run_receiver json_loads ds initial_state) k = Some p \<longrightarrow>
          sequence_count (header p) = k \<and> 0 \<le> k \<and> k < 16384)
   \<and> map fst (x_telemetry_store (xml_run_receiver xds (initial_xml_state clock)))
        = [0..<length xds]"
proof (intro conjI allI impI)
  fix p assume p: "parse_packet json_loads now data = Inr p"
  show "telemetry_store (receive_datagram json_loads now data st)
          = (telemetry_store st)(sequence_count (header p) \<mapsto> p)"
    by (rule receive_datagram_Inr[OF p])
  show "0 \<le> sequence_count (header p)" "sequence_count (header p) < 16384"
    using sequence_count_range[of data] parse_packet_Inr_header[OF p] by simp_all
next
  have "keyed_by_sequence_count (telemetry_store initial_state)"
    by (simp add: keyed_by_sequence_count_def initial_state_def)
  from run_receiver_keyed[OF this, of json_loads ds]
  have k: "keyed_by_sequence_count (telemetry_store (run_receiver json_loads ds initial_state))" .
  fix k p assume "telemetry_store (run_receiver json_loads ds initial_state) k = Some p"
  with k show "sequence_count (header p) = k" "0 \<le> k" "k < 16384"
    unfolding keyed_by_sequence_count_def by blast+
next
  show "map fst (x_telemetry_store (xml_run_receiver xds (initial_xml_state clock)))
        = [0..<length xds]"
    using xml_run_receiver_keys[of "initial_xml_state clock" xds]
    by (simp add: initial_xml_state_def)
qed

theorem telemetry_log_keys_witness:
  "\<exists>p. parse_packet (\<lambda>bs. None) ''t'' sample_packet = Inr p
       \<and> telemetry_store (run_receiver (\<lambda>bs. None) [(''t'', sample_packet)] initial_state) 1 = Some p
       \<and> sequence_count (header p) = 1
       \<and> map fst (x_telemetry_store (xml_run_receiver [(''t'', ''h'', sample_packet)] (initial_xml_state (fixed_clock ''t0'')))) = [0..<1]"
proof -
  have "6 \<le> length sample_packet" by (simp add: sample_packet_def)
  from parse_packet_long[OF this, of "\<lambda>bs. None" "''t''"]
  obtain p where p: "parse_packet (\<lambda>bs. None) ''t'' sample_packet = Inr p" by blast
  note t = telemetry_log_keys[of "\<lambda>bs. None" "''t''" sample_packet initial_state
      "[(''t'', sample_packet)]" "[(''t'', ''h'', sample_packet)]" "fixed_clock ''t0''"]
  from t p have s: "telemetry_store (receive_datagram (\<lambda>bs. None) ''t'' sample_packet initial_state)
          = (telemetry_store initial_state)(sequence_count (header p) \<mapsto> p)"
    by blast
  have h: "sequence_count (header p) = 1"
    using parse_packet_Inr_header[OF p] sample_packet_sequence_count by simp
  have r: "telemetry_store (run_receiver (\<lambda>bs. None) [(''t'', sample_packet)] initial_state) 1 = Some p"
    using s h by simp
  from t r have "sequence_count (header p) = 1 \<and> (0::int) \<le> 1 \<and> (1::int) < 16384" by blast
  moreover from t have "map fst (x_telemetry_store (xml_run_receiver [(''t'', ''h'', sample_packet)] (initial_xml_state (fixed_clock ''t0'')))) = [0..<1]"
    by simp
  ultimately show ?thesis using p r by blast
qed


text \<open>
  C8 as stated fails on the receiver of \<open>mo_service_xml.py\<close>: the same packet, sequence
  count 1, received twice leaves two records, under the keys 0 and 1.
\<close>

theorem telemetry_log_xml_counterexample:
  "sequence_count (header_of sample_packet) = 1
   \<and> map fst (x_telemetry_store
      (xml_run_receiver [(''t1'', ''10.0.0.1'', sample_packet), (''t2'', ''10.0.0.1'', sample_packet)]
         (initial_xml_state (fixed_clock ''t0'')))) = [0, 1]"
proof -
  have "sequence_count (header_of sample_packet) = 1" by code_simp
  then show ?thesis
    by (simp add: initial_xml_state_def xml_receive_datagram_def)
qed

section \<open>Claims about the operation handlers of mo_service_xml.py\<close>

subsection \<open>Response dictionaries always convert\<close>

lemma map_of_no_key:
  "list_all (\<lambda>(k, v). k \<noteq> a \<and> P v) d \<Longrightarrow> map_of d a = None"
  by (induction d) auto

lemma dict_to_element_plain:
  "(plain_value v \<longrightarrow> (\<exists>e. dict_to_element py_str tg v = Inr e))"
  "(list_all (\<lambda>(k, v). k \<noteq> ''@attributes'' \<and> plain_value v) d
      \<longrightarrow> (\<exists>es. child_elements py_str d = Inr es))"
  "(list_all plain_value xs \<longrightarrow> (\<exists>es. item_elements py_str tg' xs = Inr es))"
proof (induction py_str tg v and py_str d and py_str tg' xs
    rule: dict_to_element_child_elements_item_elements.induct)
  case (1 py_str tg d)
  then show ?case
    using map_of_no_key[of "''@attributes''" plain_value d]
    by (auto simp: and_then_def)
next
  case (2 py_str tg xs)
  then show ?case by (auto simp: and_then_def)
next
  case (9 py_str child_tag child_value rest)
  then show ?case
    by (cases child_value) (auto simp: and_then_def)
next
  case (11 py_str tg x xs)
  then show ?case by (auto simp: and_then_def)
qed simp_all

lemma dict_to_xml_plain:
  assumes "plain_value v"
  shows "\<exists>doc. dict_to_xml py_str v tg = Inr doc"
  using dict_to_element_plain(1)[of v py_str tg] assms
  by (auto simp: dict_to_xml_def and_then_def)

subsection \<open>SetParameterValues\<close>

lemma result_dicts_plain:
  "list_all plain_value (map (\<lambda>(i, param_set). result_dict (fst param_set) (clock (Suc i))) xs)"
  by (induction xs) (auto simp: result_dict_def opt_str_def split: option.splits)

lemma set_response_plain:
  "plain_value (set_parameter_values_response_dict clock param_sets rid)"
  by (simp add: set_parameter_values_response_dict_def result_dicts_plain opt_str_def
      split: option.splits)

text \<open>
  C1, as the code has it. Processing a SetParameterValues request always succeeds. It
  appends one command to \<open>command_queue\<close>, holding all the pairs extracted from the
  request, and answers with one result for each pair, in order, each with status
  \<open>SUCCESS\<close>. It leaves \<open>parameter_store\<close> as it was, so every later
  GetParameterValues answers as it would have answered before the request.
\<close>

theorem set_parameter_values_effect:
  "\<exists>doc. process_set_parameter_values_xml py_str clock rt rid st =
           (Inr doc,
            st\<lparr>x_command_queue :=
                 x_command_queue st
                 @ [\<lparr>cmd_request_id = rid, cmd_parameters = get_param_sets rt,
                      cmd_timestamp = clock (Suc (length (get_param_sets rt)))\<rparr>]\<rparr>)
         \<and> dict_to_xml py_str (set_parameter_values_response_dict clock (get_param_sets rt) rid)
               ''SetParameterValuesResponse'' = Inr doc
         \<and> dict_path (set_parameter_values_response_dict clock (get_param_sets rt) rid)
               [''parameterResultList'', ''parameterResult'']
             = Some (PList (map (\<lambda>(i, p).
                                   PDict [(''parameterId'', opt_str (fst p)),
                                          (''executionResult'',
                                             PDict [(''status'', PStr ''SUCCESS'')]),
                                          (''completionTime'', PStr (clock (Suc i)))])
                              (enumerate 0 (get_param_sets rt))))
         \<and> x_parameter_store (snd (process_set_parameter_values_xml py_str clock rt rid st))
             = x_parameter_store st
         \<and> (\<forall>clock' ids rid'.
               json_get_parameter_values clock' ids rid'
                 (snd (process_set_parameter_values_xml py_str clock rt rid st))
               = json_get_parameter_values clock' ids rid' st)"
proof -
  let ?resp = "set_parameter_values_response_dict clock (get_param_sets rt) rid"
  from dict_to_xml_plain[OF set_response_plain, of py_str clock "get_param_sets rt" rid
      "''SetParameterValuesResponse''"]
  obtain doc where doc: "dict_to_xml py_str ?resp ''SetParameterValuesResponse'' = Inr doc"
    by blast
  have p: "process_set_parameter_values_xml py_str clock rt rid st =
           (Inr doc,
            st\<lparr>x_command_queue :=
                 x_command_queue st
                 @ [\<lparr>cmd_request_id = rid, cmd_parameters = get_param_sets rt,
                      cmd_timestamp = clock (Suc (length (get_param_sets rt)))\<rparr>]\<rparr>)"
    by (simp add: process_set_parameter_values_xml_def Let_def doc)
  have path: "dict_path ?resp [''parameterResultList'', ''parameterResult'']
             = Some (PList (map (\<lambda>(i, p).
                                   PDict [(''parameterId'', opt_str (fst p)),
                                          (''executionResult'',
                                             PDict [(''status'', PStr ''SUCCESS'')]),
                                          (''completionTime'', PStr (clock (Suc i)))])
                              (enumerate 0 (get_param_sets rt))))"
    by (simp add: set_parameter_values_response_dict_def result_dict_def)
  have store: "x_parameter_store (snd (process_set_parameter_values_xml py_str clock rt rid st))
             = x_parameter_store st"
    by (simp add: p)
  have get: "json_get_parameter_values clock' ids rid'
                 (snd (process_set_parameter_values_xml py_str clock rt rid st))
               = json_get_parameter_values clock' ids rid' st" for clock' ids rid'
    by (simp add: json_get_parameter_values_def store)
  from p doc path store get show ?thesis by blast
qed

text \<open>
  C1 as stated fails: after setting the new identifier \<open>HEATER_MODE\<close> in the state the
  module starts in, GetParameterValues for it answers with no value and validity
  \<open>INVALID\<close>.
\<close>

theorem set_parameter_values_counterexample:
  "fst (hd (get_param_sets sample_set_request)) = Some ''HEATER_MODE''
   \<and> jp_validity (hd (jr_parameters
        (json_get_parameter_values (fixed_clock ''t2'') [''heater_mode''] ''REQ_2''
           (snd (process_set_parameter_values_xml sample_str (fixed_clock ''t1'')
                   sample_set_request (Some ''CMD_001'') (initial_xml_state (fixed_clock ''t0''))))))) = ''INVALID''
   \<and> jp_value (hd (jr_parameters
        (json_get_parameter_values (fixed_clock ''t2'') [''heater_mode''] ''REQ_2''
           (snd (process_set_parameter_values_xml sample_str (fixed_clock ''t1'')
                   sample_set_request (Some ''CMD_001'') (initial_xml_state (fixed_clock ''t0''))))))) = PNone"
  by code_simp


subsection \<open>GetParameterValues in XML\<close>









subsection \<open>The parameter store of mo_service_xml.py never changes\<close>










section \<open>Claims about the XML tree codec\<close>

subsection \<open>Names\<close>

lemma name_char_facts:
  "\<not> name_char CHR ''}''" "\<not> name_char CHR '':''" "\<not> name_start CHR ''@''" "\<not> name_start CHR ''#''"
  by (simp_all add: name_char_def name_start_def)



lemma xml_name_not_reserved: "xml_name k \<Longrightarrow> \<not> reserved k"
  by (auto simp: reserved_def xml_name_def name_char_facts)



subsection \<open>Dictionaries in insertion order\<close>














subsection \<open>Attributes\<close>





subsection \<open>The induction over a tagged tree\<close>






subsection \<open>The round trip\<close>







end
